theory Spec2Isabelle
  imports Main "HOL-Library.Word"
begin

section \<open>Data model\<close>

text \<open>
  The embedded program is the migration runner of package \<open>trek\<close> in its latest
  snapshot (\<^verbatim>\<open>src/unnamed/part_003\<close>, the one \<^verbatim>\<open>src/trek_test.go\<close> exercises:
  options are strings, the history table has a \<open>running\<close> column and
  \<open>setVersion\<close> takes the flag). \<^verbatim>\<open>src/trek.go\<close> is an earlier snapshot of the
  same file, from before the \<open>running\<close> column.
  Go's \<open>int64\<close> is a 64-bit word read in two's complement: comparisons are the signed
  ones and \<open>m.Version - 1\<close> wraps around.
\<close>

type_synonym int64 = "64 word"

text \<open>
  The package's error values, \<open>sql.ErrNoRows\<close> of the standard library, and
  \<open>OtherError\<close> for every other error value (a driver failure, or whatever a user
  procedure returns through \<open>errors.New\<close>).
\<close>

datatype error =
    errUnrecognizedDatabase
  | errUnrecognizedAction
  | errPreviousMigrationNotFound
  | errVersionAlreadyRegistered
  | errMigrationAlreadyRunning
  | ErrNoRows
  | OtherError string

abbreviation UP :: string where "UP \<equiv> ''up''"
abbreviation DOWN :: string where "DOWN \<equiv> ''down''"
abbreviation POSTGRES :: string where "POSTGRES \<equiv> ''postgres''"
abbreviation MYSQL :: string where "MYSQL \<equiv> ''mysql''"

record configuration =
  Action :: string
  Database :: string

subsection \<open>The database behind \<open>*sql.DB\<close>\<close>

text \<open>
  The SQL driver is not part of the repository. It is modelled by the state it keeps for
  the runner: the rows of table \<open>migrations\<close> (\<open>None\<close> while the table does not
  exist), the next value of the \<open>id\<close> sequence, whatever else the user's procedures
  store (\<open>user_data\<close>), and a script \<open>faults\<close> of driver outcomes: every call the
  runner makes to the driver takes the next entry of the script and fails with it when it
  is an error; an exhausted script means the driver works.
\<close>

record history_row =
  row_id :: int
  row_version :: int64
  row_running :: bool

record 'u sqldb =
  history :: "history_row list option"
  next_id :: int
  faults :: "error option list"
  user_data :: 'u

definition driver_call :: "'u sqldb \<Rightarrow> error option \<times> 'u sqldb" where
  "driver_call db =
     (case faults db of
        [] \<Rightarrow> (None, db)
      | f # fs \<Rightarrow> (f, db\<lparr>faults := fs\<rparr>))"

text \<open>\<open>CREATE TABLE IF NOT EXISTS migrations (...)\<close>, in either dialect.\<close>

definition exec_create_table :: "'u sqldb \<Rightarrow> error option \<times> 'u sqldb" where
  "exec_create_table db =
     (case driver_call db of
        (Some e, db') \<Rightarrow> (Some e, db')
      | (None, db') \<Rightarrow>
          (None, case history db' of
                   None \<Rightarrow> db'\<lparr>history := Some []\<rparr>
                 | Some rows \<Rightarrow> db'))"

text \<open>
  The row \<open>ORDER BY id DESC LIMIT 1\<close> selects: the one with the greatest \<open>id\<close>
  (\<open>id\<close> is the primary key, so there is one such row in a table that has rows).
\<close>

fun latest :: "history_row list \<Rightarrow> history_row option" where
  "latest [] = None"
| "latest (r # rs) =
     (case latest rs of
        None \<Rightarrow> Some r
      | Some r' \<Rightarrow> if row_id r < row_id r' then Some r' else Some r)"

text \<open>
  \<open>db.QueryRow(`SELECT version, running FROM migrations ORDER BY id DESC LIMIT 1`).Scan\<close>:
  a driver failure, \<open>sql.ErrNoRows\<close> on an empty table, or the two columns.
\<close>

definition query_latest :: "'u sqldb \<Rightarrow> (error + int64 \<times> bool) \<times> 'u sqldb" where
  "query_latest db =
     (case driver_call db of
        (Some e, db') \<Rightarrow> (Inl e, db')
      | (None, db') \<Rightarrow>
          (case history db' of
             None \<Rightarrow> (Inl (OtherError ''relation migrations does not exist''), db')
           | Some rows \<Rightarrow>
               (case latest rows of
                  None \<Rightarrow> (Inl ErrNoRows, db')
                | Some r \<Rightarrow> (Inr (row_version r, row_running r), db'))))"

text \<open>\<open>db.Prepare(query)\<close> and \<open>stmt.Exec(version, running)\<close> of the insert.\<close>

definition prepare_insert :: "'u sqldb \<Rightarrow> error option \<times> 'u sqldb" where
  "prepare_insert db = driver_call db"

definition exec_insert :: "int64 \<Rightarrow> bool \<Rightarrow> 'u sqldb \<Rightarrow> error option \<times> 'u sqldb" where
  "exec_insert version running db =
     (case driver_call db of
        (Some e, db') \<Rightarrow> (Some e, db')
      | (None, db') \<Rightarrow>
          (case history db' of
             None \<Rightarrow> (Some (OtherError ''relation migrations does not exist''), db')
           | Some rows \<Rightarrow>
               (None, db'\<lparr>history := Some (rows @
                            [\<lparr>row_id = next_id db', row_version = version,
                              row_running = running\<rparr>]),
                          next_id := next_id db' + 1\<rparr>)))"

subsection \<open>Migrations and the registry\<close>

text \<open>
  A \<open>migrationHandler\<close> is a user procedure on the database: it returns its error (or
  none) and leaves the database in a new state. A \<open>nil\<close> procedure is \<open>None\<close>.
  The package-level slice \<open>migrations\<close> is passed to and returned from the functions
  that read and write it.
\<close>

type_synonym 'u migrationHandler = "'u sqldb \<Rightarrow> error option \<times> 'u sqldb"

record 'u migration =
  Version :: int64
  Up :: "'u migrationHandler option"
  Down :: "'u migrationHandler option"

fun versionAlreadyRegistered :: "int64 \<Rightarrow> 'u migration list \<Rightarrow> bool" where
  "versionAlreadyRegistered version [] = False"
| "versionAlreadyRegistered version (m # ms) =
     (if Version m = version then True else versionAlreadyRegistered version ms)"

definition Register ::
  "int64 \<Rightarrow> 'u migrationHandler option \<Rightarrow> 'u migrationHandler option \<Rightarrow>
   'u migration list \<Rightarrow> error option \<times> 'u migration list" where
  "Register version up down migrations =
     (if versionAlreadyRegistered version migrations
      then (Some errVersionAlreadyRegistered, migrations)
      else (None, migrations @ [\<lparr>Version = version, Up = up, Down = down\<rparr>]))"

text \<open>
  A sequence of \<open>Register\<close> calls, each on the registry the previous one left: the
  errors returned, in call order, and the final registry.
\<close>

fun register_calls ::
  "(int64 \<times> 'u migrationHandler option \<times> 'u migrationHandler option) list \<Rightarrow>
   'u migration list \<Rightarrow> error option list \<times> 'u migration list" where
  "register_calls [] migrations = ([], migrations)"
| "register_calls ((version, up, down) # calls) migrations =
     (case Register version up down migrations of
        (e, migrations') \<Rightarrow>
          (case register_calls calls migrations' of
             (es, migrations'') \<Rightarrow> (e # es, migrations'')))"

subsection \<open>Option parsing\<close>

text \<open>
  The \<open>switch\<close> of \<open>parseOptions\<close>: the cases \<open>UP\<close> and \<open>POSTGRES\<close> have empty
  bodies and Go does not fall through, so only \<open>DOWN\<close> and \<open>MYSQL\<close> assign.
\<close>

fun parseOptions_loop :: "string list \<Rightarrow> configuration \<Rightarrow> configuration" where
  "parseOptions_loop [] config = config"
| "parseOptions_loop (opt # options) config =
     parseOptions_loop options
       (if opt = UP then config
        else if opt = DOWN then config\<lparr>Action := opt\<rparr>
        else if opt = POSTGRES then config
        else if opt = MYSQL then config\<lparr>Database := opt\<rparr>
        else config)"

definition parseOptions :: "string list \<Rightarrow> configuration" where
  "parseOptions options = parseOptions_loop options \<lparr>Action = UP, Database = POSTGRES\<rparr>"

subsection \<open>The bookkeeping store\<close>

definition createTable :: "configuration \<Rightarrow> 'u sqldb \<Rightarrow> error option \<times> 'u sqldb" where
  "createTable config db =
     (if Database config = POSTGRES then exec_create_table db
      else if Database config = MYSQL then exec_create_table db
      else (Some errUnrecognizedDatabase, db))"

text \<open>
  \<open>getVersion\<close>: when \<open>Scan\<close> fails nothing has been stored in \<open>currentVersion\<close>,
  which is still 0; \<open>sql.ErrNoRows\<close> is turned into version 0 without error, any other
  error is returned; a row whose \<open>running\<close> is true gives
  \<open>errMigrationAlreadyRunning\<close>.
\<close>

definition getVersion :: "'u sqldb \<Rightarrow> int64 \<times> error option \<times> 'u sqldb" where
  "getVersion db =
     (case query_latest db of
        (Inl e, db') \<Rightarrow>
          (if e = ErrNoRows then (0, None, db') else (0, Some e, db'))
      | (Inr (currentVersion, running), db') \<Rightarrow>
          (if running then (currentVersion, Some errMigrationAlreadyRunning, db')
           else (currentVersion, None, db')))"

definition setVersion ::
  "configuration \<Rightarrow> int64 \<Rightarrow> bool \<Rightarrow> 'u sqldb \<Rightarrow> error option \<times> 'u sqldb" where
  "setVersion config version running db =
     (if Database config = POSTGRES \<or> Database config = MYSQL then
        (case prepare_insert db of
           (Some e, db') \<Rightarrow> (Some e, db')
         | (None, db') \<Rightarrow> exec_insert version running db')
      else (Some errUnrecognizedDatabase, db))"

subsection \<open>The migration engine\<close>

text \<open>
  The body of the loop of \<open>runUp\<close> for a migration that is not skipped: record the
  version as running, call the procedure, record the version as done. The first error
  ends it.
\<close>

definition runUp_body ::
  "configuration \<Rightarrow> int64 \<Rightarrow> 'u migrationHandler \<Rightarrow> 'u sqldb \<Rightarrow> error option \<times> 'u sqldb" where
  "runUp_body config version up db =
     (case setVersion config version True db of
        (Some e, db1) \<Rightarrow> (Some e, db1)
      | (None, db1) \<Rightarrow>
          (case up db1 of
             (Some e, db2) \<Rightarrow> (Some e, db2)
           | (None, db2) \<Rightarrow> setVersion config version False db2))"

text \<open>
  The loop of \<open>runUp\<close> over the registry; \<open>newVersion\<close> is the result variable, which
  starts as \<open>oldVersion\<close>. A migration is skipped (\<open>continue\<close>) when its version is
  not above \<open>oldVersion\<close> or when its \<open>Up\<close> is \<open>nil\<close>.
\<close>

fun runUp_loop ::
  "configuration \<Rightarrow> int64 \<Rightarrow> 'u migration list \<Rightarrow> int64 \<Rightarrow> 'u sqldb \<Rightarrow>
   int64 \<times> error option \<times> 'u sqldb" where
  "runUp_loop config oldVersion [] newVersion db = (newVersion, None, db)"
| "runUp_loop config oldVersion (m # ms) newVersion db =
     (if Version m \<le>s oldVersion then runUp_loop config oldVersion ms newVersion db
      else case Up m of
        None \<Rightarrow> runUp_loop config oldVersion ms newVersion db
      | Some up \<Rightarrow>
          (case runUp_body config (Version m) up db of
             (Some e, db') \<Rightarrow> (newVersion, Some e, db')
           | (None, db') \<Rightarrow> runUp_loop config oldVersion ms (Version m) db'))"

definition runUp ::
  "configuration \<Rightarrow> int64 \<Rightarrow> 'u migration list \<Rightarrow> 'u sqldb \<Rightarrow>
   int64 \<times> error option \<times> 'u sqldb" where
  "runUp config oldVersion migrations db = runUp_loop config oldVersion migrations oldVersion db"

text \<open>
  The backward scan of \<open>runDown\<close>, \<open>for i := len(migrations) - 1; i >= 0; i--\<close>,
  as a forward scan of the reversed registry: the first entry met whose version is at most
  \<open>oldVersion\<close>.
\<close>

fun scan_back :: "int64 \<Rightarrow> 'u migration list \<Rightarrow> 'u migration option" where
  "scan_back oldVersion [] = None"
| "scan_back oldVersion (m # ms) =
     (if Version m \<le>s oldVersion then Some m else scan_back oldVersion ms)"

text \<open>\<open>if h != nil { err = h(db.DB) }\<close>: a \<open>nil\<close> procedure does nothing.\<close>

definition call_handler :: "'u migrationHandler option \<Rightarrow> 'u sqldb \<Rightarrow> error option \<times> 'u sqldb" where
  "call_handler h db = (case h of None \<Rightarrow> (None, db) | Some f \<Rightarrow> f db)"

definition runDown ::
  "configuration \<Rightarrow> int64 \<Rightarrow> 'u migration list \<Rightarrow> 'u sqldb \<Rightarrow>
   int64 \<times> error option \<times> 'u sqldb" where
  "runDown config oldVersion migrations db =
     (if oldVersion = 0 then (0, None, db)
      else case scan_back oldVersion (rev migrations) of
        None \<Rightarrow> (oldVersion, Some errPreviousMigrationNotFound, db)
      | Some m \<Rightarrow>
          (case setVersion config (Version m - 1) True db of
             (Some e, db1) \<Rightarrow> (oldVersion, Some e, db1)
           | (None, db1) \<Rightarrow>
               (case call_handler (Down m) db1 of
                  (Some e, db2) \<Rightarrow> (oldVersion, Some e, db2)
                | (None, db2) \<Rightarrow>
                    (case setVersion config (Version m - 1) False db2 of
                       (Some e, db3) \<Rightarrow> (oldVersion, Some e, db3)
                     | (None, db3) \<Rightarrow> (Version m - 1, None, db3)))))"

text \<open>
  \<open>runMigrations\<close>: in the \<open>default\<close> case only \<open>err\<close> is assigned, so the result
  \<open>newVersion\<close> keeps Go's zero value.
\<close>

definition runMigrations ::
  "configuration \<Rightarrow> int64 \<Rightarrow> 'u migration list \<Rightarrow> 'u sqldb \<Rightarrow>
   int64 \<times> error option \<times> 'u sqldb" where
  "runMigrations config oldVersion migrations db =
     (if Action config = UP then runUp config oldVersion migrations db
      else if Action config = DOWN then runDown config oldVersion migrations db
      else (0, Some errUnrecognizedAction, db))"

text \<open>
  \<open>sort.Sort(byVersion(migrations))\<close> orders the registry by \<open>Version\<close>, compared as
  signed integers. Go's sort is not stable, so the order among entries of equal version is
  not determined by the source; the registry \<open>Register\<close> builds has none.
\<close>

definition sortByVersion :: "'u migration list \<Rightarrow> 'u migration list" where
  "sortByVersion migrations = sort_key (\<lambda>m. sint (Version m)) migrations"

text \<open>
  \<open>Run\<close> returns \<open>(didChange, newVersion, err)\<close>; the registry (sorted in place) and
  the database are returned with it. The early returns leave \<open>didChange\<close> and
  \<open>newVersion\<close> at their zero values.
\<close>

definition Run ::
  "'u migration list \<Rightarrow> 'u sqldb \<Rightarrow> string list \<Rightarrow>
   (bool \<times> int64 \<times> error option) \<times> 'u migration list \<times> 'u sqldb" where
  "Run migrations db options =
     (if length migrations = 0 then ((False, 0, None), migrations, db)
      else
        let sorted = sortByVersion migrations;
            config = parseOptions options
        in case createTable config db of
             (Some e, db1) \<Rightarrow> ((False, 0, Some e), sorted, db1)
           | (None, db1) \<Rightarrow>
               (case getVersion db1 of
                  (oldVersion, Some e, db2) \<Rightarrow> ((False, 0, Some e), sorted, db2)
                | (oldVersion, None, db2) \<Rightarrow>
                    (case runMigrations config oldVersion sorted db2 of
                       (newVersion, err, db3) \<Rightarrow>
                         ((oldVersion \<noteq> newVersion, newVersion, err), sorted, db3))))"

subsection \<open>Vocabulary of the statements\<close>

text \<open>
  What the history table says: the version and the in-flight flag of its latest row,
  version 0 and not in flight when the table is missing or empty.
\<close>

definition recorded :: "'u sqldb \<Rightarrow> int64 \<times> bool" where
  "recorded db =
     (case history db of
        None \<Rightarrow> (0, False)
      | Some rows \<Rightarrow>
          (case latest rows of
             None \<Rightarrow> (0, False)
           | Some r \<Rightarrow> (row_version r, row_running r)))"

text \<open>The rows of the history table, none when it does not exist.\<close>

definition history_rows :: "'u sqldb \<Rightarrow> history_row list" where
  "history_rows db = (case history db of None \<Rightarrow> [] | Some rows \<Rightarrow> rows)"

text \<open>Every row's \<open>id\<close> was drawn from the sequence: it is below the next value.\<close>

definition fresh_ids :: "'u sqldb \<Rightarrow> bool" where
  "fresh_ids db \<longleftrightarrow> list_all (\<lambda>r. row_id r < next_id db) (history_rows db)"

text \<open>
  The rows that complete transitions to the versions \<open>vs\<close>, in this order, add to a
  table whose sequence is at \<open>n\<close>: for each version a row with \<open>running = true\<close>,
  then one with \<open>running = false\<close>.
\<close>

fun transitions :: "int \<Rightarrow> int64 list \<Rightarrow> history_row list" where
  "transitions n [] = []"
| "transitions n (v # vs) =
     \<lparr>row_id = n, row_version = v, row_running = True\<rparr> #
     \<lparr>row_id = n + 1, row_version = v, row_running = False\<rparr> #
     transitions (n + 2) vs"

text \<open>
  A procedure that does nothing and succeeds, one that fails with \<open>e\<close>, and the
  procedures that succeed on every database and change nothing but the user's own data.
\<close>

definition noop :: "'u migrationHandler" where
  "noop db = (None, db)"

definition failing :: "error \<Rightarrow> 'u migrationHandler" where
  "failing e db = (Some e, db)"


text \<open>
  A migration that \<open>runUp\<close> does not skip, and the migrations a run of \<open>UP\<close> from
  \<open>oldVersion\<close> has to apply, in the order of the sorted registry.
\<close>

definition pending :: "int64 \<Rightarrow> 'u migration \<Rightarrow> bool" where
  "pending oldVersion m \<longleftrightarrow> \<not> Version m \<le>s oldVersion \<and> Up m \<noteq> None"


section \<open>The registry\<close>

lemma versionAlreadyRegistered_iff:
  "versionAlreadyRegistered version ms \<longleftrightarrow> version \<in> set (map Version ms)"
  by (induction ms) auto

lemma Register_fresh:
  "version \<notin> set (map Version ms) \<Longrightarrow>
   Register version up down ms = (None, ms @ [\<lparr>Version = version, Up = up, Down = down\<rparr>])"
  by (simp add: Register_def versionAlreadyRegistered_iff)

lemma Register_duplicate:
  "version \<in> set (map Version ms) \<Longrightarrow>
   Register version up down ms = (Some errVersionAlreadyRegistered, ms)"
  by (simp add: Register_def versionAlreadyRegistered_iff)

lemma register_calls_fresh:
  "distinct (map fst calls) \<Longrightarrow> set (map fst calls) \<inter> set (map Version ms) = {} \<Longrightarrow>
   fst (register_calls calls ms) = replicate (length calls) None \<and>
   map Version (snd (register_calls calls ms)) = map Version ms @ map fst calls"
proof (induction calls arbitrary: ms)
  case Nil
  then show ?case by simp
next
  case (Cons c calls)
  obtain version up down where c: "c = (version, up, down)"
    by (cases c) auto
  let ?ms' = "ms @ [\<lparr>Version = version, Up = up, Down = down\<rparr>]"
  from Cons.prems c have fresh: "version \<notin> set (map Version ms)"
    by auto
  from Cons.prems c have "distinct (map fst calls)"
    and "set (map fst calls) \<inter> set (map Version ?ms') = {}"
    by auto
  then have "fst (register_calls calls ?ms') = replicate (length calls) None \<and>
      map Version (snd (register_calls calls ?ms')) = map Version ?ms' @ map fst calls"
    by (rule Cons.IH)
  with fresh c show ?case
    by (auto simp: Register_fresh split: prod.splits)
qed

text \<open>Registration keeps the registry's invariant: no two entries share a version.\<close>

lemma Register_distinct:
  "distinct (map Version ms) \<Longrightarrow> distinct (map Version (snd (Register version up down ms)))"
  by (simp add: Register_def versionAlreadyRegistered_iff)

text \<open>
  C8. Any sequence of \<open>Register\<close> calls with pairwise distinct versions, made on the
  empty registry, returns no error at any call and leaves a registry with as many entries
  as there were calls; and a \<open>Register\<close> call whose version is already in the registry
  returns \<open>errVersionAlreadyRegistered\<close> and leaves the registry as it was.
\<close>

theorem Register_unique_and_duplicate:
  "(distinct (map fst calls) \<longrightarrow>
      (\<forall>e \<in> set (fst (register_calls calls [])). e = None) \<and>
      length (fst (register_calls calls [])) = length calls \<and>
      length (snd (register_calls calls [])) = length calls \<and>
      map Version (snd (register_calls calls [])) = map fst calls) \<and>
   ((\<exists>m \<in> set ms. Version m = version) \<longrightarrow>
      Register version up down ms = (Some errVersionAlreadyRegistered, ms))"
proof (intro conjI impI)
  assume d: "distinct (map fst calls)"
  then have r: "fst (register_calls calls []) = replicate (length calls) None \<and>
      map Version (snd (register_calls calls [])) = map Version [] @ map fst calls"
    using register_calls_fresh [of calls "[]"] by simp
  from r show "\<forall>e \<in> set (fst (register_calls calls [])). e = None"
    by simp
  from r show "length (fst (register_calls calls [])) = length calls"
    by simp
  from r show v: "map Version (snd (register_calls calls [])) = map fst calls"
    by simp
  from v have "length (map Version (snd (register_calls calls []))) = length (map fst calls)"
    by simp
  then show "length (snd (register_calls calls [])) = length calls"
    by simp
next
  assume "\<exists>m \<in> set ms. Version m = version"
  then have "version \<in> set (map Version ms)"
    by auto
  then show "Register version up down ms = (Some errVersionAlreadyRegistered, ms)"
    by (rule Register_duplicate)
qed

theorem Register_unique_and_duplicate_witness:
  "distinct (map fst [(1 :: int64, None, None), (2, None, None)]) \<and>
   fst (register_calls [(1, None, None), (2, None, None)] ([] :: unit migration list))
     = [None, None] \<and>
   length (snd (register_calls [(1, None, None), (2, None, None)]
     ([] :: unit migration list))) = 2 \<and>
   (\<exists>m \<in> set [\<lparr>Version = 1, Up = None, Down = None\<rparr> :: unit migration]. Version m = 1) \<and>
   Register 1 None None [\<lparr>Version = 1, Up = None, Down = None\<rparr> :: unit migration]
     = (Some errVersionAlreadyRegistered, [\<lparr>Version = 1, Up = None, Down = None\<rparr>])"
  using Register_unique_and_duplicate
    [of "[(1, None, None), (2, None, None)] ::
           (int64 \<times> unit migrationHandler option \<times> unit migrationHandler option) list"
        "[\<lparr>Version = 1, Up = None, Down = None\<rparr>]" 1 None None]
  by (simp add: Register_def)

section \<open>Option parsing\<close>

text \<open>
  What the loop computes: the action is \<open>DOWN\<close> exactly when some token is
  \<open>DOWN\<close>, the database is \<open>MYSQL\<close> exactly when some token is \<open>MYSQL\<close>, and
  nothing else of the token sequence matters.
\<close>

lemma parseOptions_loop_eq:
  "parseOptions_loop options config =
     config\<lparr>Action := (if DOWN \<in> set options then DOWN else Action config),
            Database := (if MYSQL \<in> set options then MYSQL else Database config)\<rparr>"
  by (induction options arbitrary: config) auto

lemma parseOptions_eq:
  "parseOptions options =
     \<lparr>Action = (if DOWN \<in> set options then DOWN else UP),
      Database = (if MYSQL \<in> set options then MYSQL else POSTGRES)\<rparr>"
  by (simp add: parseOptions_def parseOptions_loop_eq)

lemma parseOptions_action_cases:
  "Action (parseOptions options) = UP \<or> Action (parseOptions options) = DOWN"
  by (simp add: parseOptions_eq)

lemma parseOptions_database_cases:
  "Database (parseOptions options) = POSTGRES \<or> Database (parseOptions options) = MYSQL"
  by (simp add: parseOptions_eq)

text \<open>
  C9. \<open>parseOptions\<close> is a total function of its token sequence alone. A sequence
  with no action token gives action \<open>UP\<close>, one with no database token gives database
  \<open>POSTGRES\<close>; dropping every token that is not one of the four recognized ones does
  not change the result (there is no error to return); and the tokens \<open>MYSQL\<close> and
  \<open>DOWN\<close>, in either order, give \<open>{DOWN, MYSQL}\<close>.
\<close>

theorem parseOptions_defaults:
  "(UP \<notin> set options \<and> DOWN \<notin> set options \<longrightarrow> Action (parseOptions options) = UP) \<and>
   (POSTGRES \<notin> set options \<and> MYSQL \<notin> set options \<longrightarrow>
      Database (parseOptions options) = POSTGRES) \<and>
   parseOptions (filter (\<lambda>opt. opt \<in> {UP, DOWN, POSTGRES, MYSQL}) options)
     = parseOptions options \<and>
   parseOptions [MYSQL, DOWN] = \<lparr>Action = DOWN, Database = MYSQL\<rparr> \<and>
   parseOptions [DOWN, MYSQL] = \<lparr>Action = DOWN, Database = MYSQL\<rparr>"
  by (simp add: parseOptions_eq)

theorem parseOptions_defaults_witness:
  "UP \<notin> set [''foo'', ''bar''] \<and> DOWN \<notin> set [''foo'', ''bar''] \<and>
   POSTGRES \<notin> set [''foo'', ''bar''] \<and> MYSQL \<notin> set [''foo'', ''bar''] \<and>
   parseOptions [''foo'', ''bar''] = \<lparr>Action = UP, Database = POSTGRES\<rparr>"
  using parseOptions_defaults [of "[''foo'', ''bar'']"]
  by (simp add: parseOptions_def)

text \<open>
  C10. A sequence that holds \<open>DOWN\<close> parses to action \<open>DOWN\<close> whether or not, and
  wherever, it also holds \<open>UP\<close>; a sequence that holds \<open>MYSQL\<close> parses to database
  \<open>MYSQL\<close> whether or not it also holds \<open>POSTGRES\<close>; and removing every \<open>UP\<close>
  and \<open>POSTGRES\<close> token changes nothing, as for an unrecognized token.
\<close>

theorem parseOptions_up_postgres_inert:
  "(DOWN \<in> set options \<and> UP \<in> set options \<longrightarrow> Action (parseOptions options) = DOWN) \<and>
   (MYSQL \<in> set options \<and> POSTGRES \<in> set options \<longrightarrow>
      Database (parseOptions options) = MYSQL) \<and>
   parseOptions (filter (\<lambda>opt. opt \<noteq> UP \<and> opt \<noteq> POSTGRES) options) = parseOptions options"
  by (simp add: parseOptions_eq)

theorem parseOptions_up_postgres_inert_witness:
  "DOWN \<in> set [DOWN, MYSQL, UP, POSTGRES] \<and> UP \<in> set [DOWN, MYSQL, UP, POSTGRES] \<and>
   MYSQL \<in> set [DOWN, MYSQL, UP, POSTGRES] \<and> POSTGRES \<in> set [DOWN, MYSQL, UP, POSTGRES] \<and>
   parseOptions [DOWN, MYSQL, UP, POSTGRES] = \<lparr>Action = DOWN, Database = MYSQL\<rparr> \<and>
   parseOptions [UP, POSTGRES, DOWN, MYSQL] = \<lparr>Action = DOWN, Database = MYSQL\<rparr>"
  using parseOptions_up_postgres_inert [of "[DOWN, MYSQL, UP, POSTGRES]"]
    parseOptions_up_postgres_inert [of "[UP, POSTGRES, DOWN, MYSQL]"]
  by (simp add: parseOptions_def)

section \<open>The bookkeeping store and the engine: basic facts\<close>

text \<open>A driver whose script is exhausted performs every call.\<close>

lemma driver_call_ok: "faults db = [] \<Longrightarrow> driver_call db = (None, db)"
  by (simp add: driver_call_def)

lemma createTable_ok:
  "Database config = POSTGRES \<or> Database config = MYSQL \<Longrightarrow> faults db = [] \<Longrightarrow>
   createTable config db = (None, db\<lparr>history := Some (history_rows db)\<rparr>)"
  by (auto simp: createTable_def exec_create_table_def driver_call_ok history_rows_def
      split: option.splits)

lemma getVersion_ok:
  "faults db = [] \<Longrightarrow> history db = Some rows \<Longrightarrow>
   getVersion db =
     (fst (recorded db), if snd (recorded db) then Some errMigrationAlreadyRunning else None, db)"
  by (simp add: getVersion_def query_latest_def driver_call_ok recorded_def
      split: option.splits)

lemma setVersion_ok:
  "Database config = POSTGRES \<or> Database config = MYSQL \<Longrightarrow> faults db = [] \<Longrightarrow>
   history db = Some rows \<Longrightarrow>
   setVersion config version running db =
     (None, db\<lparr>history := Some (rows @
                 [\<lparr>row_id = next_id db, row_version = version, row_running = running\<rparr>]),
               next_id := next_id db + 1\<rparr>)"
  by (auto simp: setVersion_def prepare_insert_def exec_insert_def driver_call_ok)

text \<open>
  The row the query selects is a row of the table, no row has a greater \<open>id\<close>, and a
  row whose \<open>id\<close> is above all the others is the one selected.
\<close>

lemma latest_mem: "latest rows = Some r \<Longrightarrow> r \<in> set rows"
  by (induction rows arbitrary: r) (auto split: option.splits if_splits)

lemma latest_None: "latest rows = None \<longleftrightarrow> rows = []"
  by (cases rows) (auto split: option.splits)

lemma latest_max: "latest rows = Some r \<Longrightarrow> x \<in> set rows \<Longrightarrow> row_id x \<le> row_id r"
proof (induction rows arbitrary: r)
  case Nil
  then show ?case by simp
next
  case (Cons a rows)
  show ?case
  proof (cases "latest rows")
    case None
    then have "rows = []" by (simp add: latest_None)
    with Cons.prems show ?thesis by simp
  next
    case (Some r')
    with Cons.prems(2) have "x = a \<or> row_id x \<le> row_id r'"
      using Cons.IH [of r'] by auto
    with Cons.prems(1) Some show ?thesis
      by (auto split: if_splits)
  qed
qed

lemma latest_greatest:
  assumes "r \<in> set rows" and "\<forall>x \<in> set rows. x \<noteq> r \<longrightarrow> row_id x < row_id r"
  shows "latest rows = Some r"
proof -
  from assms(1) have "rows \<noteq> []" by auto
  then obtain r' where r': "latest rows = Some r'"
    by (cases "latest rows") (auto simp: latest_None)
  have "r' \<in> set rows" using r' by (rule latest_mem)
  moreover have "row_id r \<le> row_id r'" using r' assms(1) by (rule latest_max)
  ultimately have "r' = r" using assms(2) by force
  with r' show ?thesis by simp
qed

lemma latest_snoc:
  "\<forall>x \<in> set rows. row_id x < row_id r \<Longrightarrow> latest (rows @ [r]) = Some r"
  by (rule latest_greatest) auto

text \<open>
  The backward scan returns the last entry of the registry whose version is at most the
  current version.
\<close>

lemma scan_back_rev:
  "scan_back old (rev ms) =
     (case filter (\<lambda>m. Version m \<le>s old) ms of [] \<Rightarrow> None | x # xs \<Rightarrow> Some (last (x # xs)))"
  by (induction ms rule: rev_induct) (auto split: list.splits)

lemma sle_iff_sint: "a \<le>s b \<longleftrightarrow> sint a \<le> sint b"
  by (rule word_sle_eq)


text \<open>
  The loop of \<open>runUp\<close>: a registry can be run piece by piece; the entries that are
  not pending play no part; a run without error returns the version of the last pending
  entry; and a run that returns an error has run the entries before some pending one
  without error and then failed in the body for that one.
\<close>

lemma runUp_loop_append:
  "runUp_loop c old (xs @ ys) nv db =
     (case runUp_loop c old xs nv db of
        (v, None, db') \<Rightarrow> runUp_loop c old ys v db'
      | (v, Some e, db') \<Rightarrow> (v, Some e, db'))"
  by (induction xs arbitrary: nv db) (auto split: option.splits prod.splits)

lemma runUp_loop_filter:
  "runUp_loop c old (filter (pending old) ms) nv db = runUp_loop c old ms nv db"
  by (induction ms arbitrary: nv db) (auto simp: pending_def split: option.splits prod.splits)

lemma runUp_loop_success_version:
  "runUp_loop c old ms nv db = (v, None, db') \<Longrightarrow>
   v = last (nv # map Version (filter (pending old) ms))"
  by (induction ms arbitrary: nv db) (auto simp: pending_def split: option.splits prod.splits if_splits)

lemma runUp_loop_failure:
  "runUp_loop c old ms nv db = (v, Some e, db') \<Longrightarrow>
   \<exists>pre m post up db1. ms = pre @ m # post \<and> pending old m \<and> Up m = Some up \<and>
      runUp_loop c old pre nv db = (v, None, db1) \<and>
      runUp_body c (Version m) up db1 = (Some e, db')"
proof (induction ms arbitrary: nv db)
  case Nil
  then show ?case by simp
next
  case (Cons a ms)
  show ?case
  proof (cases "pending old a")
    case False
    with Cons.prems have "runUp_loop c old ms nv db = (v, Some e, db')"
      by (auto simp: pending_def split: option.splits)
    from Cons.IH [OF this] obtain pre m post up db1 where
      "ms = pre @ m # post" "pending old m" "Up m = Some up"
      "runUp_loop c old pre nv db = (v, None, db1)"
      "runUp_body c (Version m) up db1 = (Some e, db')"
      by blast
    with False have "a # ms = (a # pre) @ m # post \<and> pending old m \<and> Up m = Some up \<and>
      runUp_loop c old (a # pre) nv db = (v, None, db1) \<and>
      runUp_body c (Version m) up db1 = (Some e, db')"
      by (auto simp: pending_def split: option.splits)
    then show ?thesis by blast
  next
    case True
    then obtain up where up: "Up a = Some up" and above: "\<not> Version a \<le>s old"
      by (auto simp: pending_def)
    show ?thesis
    proof (cases "runUp_body c (Version a) up db")
      case (Pair r db2)
      show ?thesis
      proof (cases r)
        case (Some e')
        with Pair up above Cons.prems have "v = nv" "e' = e" "db2 = db'"
          by auto
        with Pair Some up True have "a # ms = [] @ a # ms \<and> pending old a \<and> Up a = Some up \<and>
          runUp_loop c old [] nv db = (v, None, db) \<and>
          runUp_body c (Version a) up db = (Some e, db')"
          by simp
        then show ?thesis by blast
      next
        case None
        with Pair up above Cons.prems
        have "runUp_loop c old ms (Version a) db2 = (v, Some e, db')"
          by auto
        from Cons.IH [OF this] obtain pre m post up' db1 where
          "ms = pre @ m # post" "pending old m" "Up m = Some up'"
          "runUp_loop c old pre (Version a) db2 = (v, None, db1)"
          "runUp_body c (Version m) up' db1 = (Some e, db')"
          by blast
        with Pair None up above
        have "a # ms = (a # pre) @ m # post \<and> pending old m \<and> Up m = Some up' \<and>
          runUp_loop c old (a # pre) nv db = (v, None, db1) \<and>
          runUp_body c (Version m) up' db1 = (Some e, db')"
          by auto
        then show ?thesis by blast
      qed
    qed
  qed
qed

lemma runUp_stops:
  assumes "runUp c old pre db = (v, None, db1)"
    and "\<not> Version m \<le>s old" and "Up m = Some up"
    and "runUp_body c (Version m) up db1 = (Some e, db2)"
  shows "runUp c old (pre @ m # post) db = (v, Some e, db2)"
  using assms by (simp add: runUp_def runUp_loop_append)

text \<open>\<open>Run\<close> once the table is there and the version has been read.\<close>

lemma Run_engine:
  assumes "migrations \<noteq> []"
    and "createTable (parseOptions options) db = (None, db0)"
    and "getVersion db0 = (oldVersion, None, db1)"
    and "runMigrations (parseOptions options) oldVersion (sortByVersion migrations) db1
          = (newVersion, err, db2)"
  shows "Run migrations db options =
    ((oldVersion \<noteq> newVersion, newVersion, err), sortByVersion migrations, db2)"
  using assms by (simp add: Run_def Let_def)

lemma recorded_created [simp]: "recorded (db\<lparr>history := Some (history_rows db)\<rparr>) = recorded db"
  by (simp add: recorded_def history_rows_def split: option.splits)

lemma Run_ok:
  assumes "migrations \<noteq> []" and "faults db = []" and "recorded db = (oldVersion, False)"
    and "runMigrations (parseOptions options) oldVersion (sortByVersion migrations)
           (db\<lparr>history := Some (history_rows db)\<rparr>) = (newVersion, err, db2)"
  shows "Run migrations db options =
    ((oldVersion \<noteq> newVersion, newVersion, err), sortByVersion migrations, db2)"
proof (rule Run_engine [OF assms(1) _ _ assms(4)])
  show "createTable (parseOptions options) db = (None, db\<lparr>history := Some (history_rows db)\<rparr>)"
    using assms(2) parseOptions_database_cases [of options] by (intro createTable_ok) 
  show "getVersion (db\<lparr>history := Some (history_rows db)\<rparr>)
     = (oldVersion, None, db\<lparr>history := Some (history_rows db)\<rparr>)"
    using assms(2,3) by (simp add: getVersion_ok [where rows = "history_rows db"])
qed



lemma transitions_append:
  "transitions n (vs @ ws) = transitions n vs @ transitions (n + 2 * int (length vs)) ws"
  by (induction vs arbitrary: n) (simp_all add: algebra_simps)


lemma runUp_body_failure:
  "runUp_body c v up db = (Some e, db') \<longleftrightarrow>
     setVersion c v True db = (Some e, db') \<or>
     (\<exists>db1. setVersion c v True db = (None, db1) \<and> up db1 = (Some e, db')) \<or>
     (\<exists>db1 db2. setVersion c v True db = (None, db1) \<and> up db1 = (None, db2) \<and>
        setVersion c v False db2 = (Some e, db'))"
  by (auto simp: runUp_body_def split: prod.splits option.splits)

lemma runMigrations_up: "DOWN \<notin> set options \<Longrightarrow>
  runMigrations (parseOptions options) old ms db = runUp (parseOptions options) old ms db"
  by (simp add: runMigrations_def parseOptions_eq)

lemma runMigrations_down: "DOWN \<in> set options \<Longrightarrow>
  runMigrations (parseOptions options) old ms db = runDown (parseOptions options) old ms db"
  by (simp add: runMigrations_def parseOptions_eq)

section \<open>UP: failure in the middle of a batch\<close>

text \<open>
  C1. \<open>Run\<close> with action \<open>UP\<close> (no \<open>DOWN\<close> token), on a database whose table
  creation and version read succeed with current version \<open>oldVersion\<close>: when the
  sorted registry is \<open>pre @ m # post\<close>, the migrations of \<open>pre\<close> run through and
  leave version \<open>v\<close> and database \<open>db2\<close>, and the pending migration \<open>m\<close> fails
  with \<open>e\<close> (at recording \<open>running = true\<close>, in its up procedure, or at recording
  \<open>running = false\<close>), then \<open>Run\<close> returns \<open>newVersion = v\<close>, the version of
  the last migration completed (\<open>oldVersion\<close> if there is none), with error \<open>e\<close>
  and \<open>didChange = (oldVersion \<noteq> v)\<close>; nothing of \<open>post\<close> is run, and the
  database returned is the one the failed attempt left on top of \<open>db2\<close>: what the
  earlier migrations wrote is not undone. The witness is the registry of versions 1 and 2
  on a fresh database, first with an up procedure of version 2 that fails, then with a
  driver that fails when version 2 is to be recorded: the result is
  \<open>(true, 1, that error)\<close> in both.
\<close>

theorem Run_up_stops_at_first_failure:
  assumes action: "DOWN \<notin> set options"
    and table: "createTable (parseOptions options) db = (None, db0)"
    and version: "getVersion db0 = (oldVersion, None, db1)"
    and registry: "sortByVersion migrations = pre @ m # post"
    and earlier: "runUp (parseOptions options) oldVersion pre db1 = (v, None, db2)"
    and above: "\<not> Version m \<le>s oldVersion"
    and up: "Up m = Some up"
    and fails:
      "setVersion (parseOptions options) (Version m) True db2 = (Some e, db3) \<or>
       (\<exists>s. setVersion (parseOptions options) (Version m) True db2 = (None, s) \<and>
          up s = (Some e, db3)) \<or>
       (\<exists>s t. setVersion (parseOptions options) (Version m) True db2 = (None, s) \<and>
          up s = (None, t) \<and>
          setVersion (parseOptions options) (Version m) False t = (Some e, db3))"
  shows "Run migrations db options =
           ((oldVersion \<noteq> v, v, Some e), sortByVersion migrations, db3) \<and>
         v = last (oldVersion # map Version (filter (pending oldVersion) pre))"
proof
  from registry have nonempty: "migrations \<noteq> []"
    by (auto simp: sortByVersion_def)
  from fails have "runUp_body (parseOptions options) (Version m) up db2 = (Some e, db3)"
    by (simp add: runUp_body_failure)
  with earlier above up
  have "runUp (parseOptions options) oldVersion (pre @ m # post) db1 = (v, Some e, db3)"
    by (rule runUp_stops)
  with action registry
  have "runMigrations (parseOptions options) oldVersion (sortByVersion migrations) db1
          = (v, Some e, db3)"
    by (simp add: runMigrations_up)
  with nonempty table version
  show "Run migrations db options =
      ((oldVersion \<noteq> v, v, Some e), sortByVersion migrations, db3)"
    by (rule Run_engine)
  from earlier show "v = last (oldVersion # map Version (filter (pending oldVersion) pre))"
    unfolding runUp_def by (rule runUp_loop_success_version)
qed

theorem Run_up_stops_at_first_failure_witness:
  "Run [\<lparr>Version = 2, Up = Some (failing (OtherError ''Foo'')), Down = Some noop\<rparr>,
        \<lparr>Version = 1, Up = Some noop, Down = Some noop\<rparr>]
       \<lparr>history = None, next_id = 1, faults = [], user_data = ()\<rparr> [POSTGRES, UP]
   = ((True, 1, Some (OtherError ''Foo'')),
      [\<lparr>Version = 1, Up = Some noop, Down = Some noop\<rparr>,
       \<lparr>Version = 2, Up = Some (failing (OtherError ''Foo'')), Down = Some noop\<rparr>],
      \<lparr>history = Some [\<lparr>row_id = 1, row_version = 1, row_running = True\<rparr>,
                       \<lparr>row_id = 2, row_version = 1, row_running = False\<rparr>,
                       \<lparr>row_id = 3, row_version = 2, row_running = True\<rparr>],
       next_id = 4, faults = [], user_data = ()\<rparr>) \<and>
   Run [\<lparr>Version = 1, Up = Some noop, Down = Some noop\<rparr>,
        \<lparr>Version = 2, Up = Some noop, Down = Some noop\<rparr>]
       \<lparr>history = Some [], next_id = 1,
        faults = [None, None, None, None, None, None, Some (OtherError ''bad connection'')],
        user_data = ()\<rparr> [MYSQL]
   = ((True, 1, Some (OtherError ''bad connection'')),
      [\<lparr>Version = 1, Up = Some noop, Down = Some noop\<rparr>,
       \<lparr>Version = 2, Up = Some noop, Down = Some noop\<rparr>],
      \<lparr>history = Some [\<lparr>row_id = 1, row_version = 1, row_running = True\<rparr>,
                       \<lparr>row_id = 2, row_version = 1, row_running = False\<rparr>],
       next_id = 3, faults = [], user_data = ()\<rparr>)"
proof (rule conjI)
  let ?first = "\<lparr>Version = 1, Up = Some noop, Down = Some noop\<rparr> :: unit migration"
  let ?second = "\<lparr>Version = 2, Up = Some (failing (OtherError ''Foo'')), Down = Some noop\<rparr>
               :: unit migration"
  let ?db = "\<lparr>history = None, next_id = 1, faults = [], user_data = ()\<rparr>"
  let ?created = "\<lparr>history = Some [], next_id = 1, faults = [], user_data = ()\<rparr>"
  let ?applied = "\<lparr>history = Some [\<lparr>row_id = 1, row_version = 1, row_running = True\<rparr>,
                                \<lparr>row_id = 2, row_version = 1, row_running = False\<rparr>],
               next_id = 3, faults = [], user_data = ()\<rparr>"
  let ?final = "\<lparr>history = Some [\<lparr>row_id = 1, row_version = 1, row_running = True\<rparr>,
                                \<lparr>row_id = 2, row_version = 1, row_running = False\<rparr>,
                                \<lparr>row_id = 3, row_version = 2, row_running = True\<rparr>],
               next_id = 4, faults = [], user_data = ()\<rparr>"
  have action: "DOWN \<notin> set [POSTGRES, UP]"
    by simp
  have table: "createTable (parseOptions [POSTGRES, UP]) ?db = (None, ?created)"
    by (simp add: parseOptions_def createTable_def exec_create_table_def driver_call_def)
  have version: "getVersion ?created = (0, None, ?created)"
    by (simp add: getVersion_def query_latest_def driver_call_def)
  have registry: "sortByVersion [?second, ?first] = [?first] @ ?second # []"
    by (simp add: sortByVersion_def)
  have earlier: "runUp (parseOptions [POSTGRES, UP]) 0 [?first] ?created = (1, None, ?applied)"
    by (simp add: parseOptions_def runUp_def runUp_body_def setVersion_def prepare_insert_def
        exec_insert_def driver_call_def noop_def sle_iff_sint)
  have above: "\<not> Version ?second \<le>s 0"
    by (simp add: sle_iff_sint)
  have up: "Up ?second = Some (failing (OtherError ''Foo''))"
    by simp
  have fails:
    "setVersion (parseOptions [POSTGRES, UP]) (Version ?second) True ?applied
       = (Some (OtherError ''Foo''), ?final) \<or>
     (\<exists>s. setVersion (parseOptions [POSTGRES, UP]) (Version ?second) True ?applied = (None, s) \<and>
        failing (OtherError ''Foo'') s = (Some (OtherError ''Foo''), ?final)) \<or>
     (\<exists>s t. setVersion (parseOptions [POSTGRES, UP]) (Version ?second) True ?applied = (None, s) \<and>
        failing (OtherError ''Foo'') s = (None, t) \<and>
        setVersion (parseOptions [POSTGRES, UP]) (Version ?second) False t
          = (Some (OtherError ''Foo''), ?final))"
    by (simp add: parseOptions_def setVersion_def prepare_insert_def exec_insert_def
        driver_call_def failing_def)
  from Run_up_stops_at_first_failure [OF action table version registry earlier above up fails]
  show "Run [?second, ?first] ?db [POSTGRES, UP] =
      ((True, 1, Some (OtherError ''Foo'')), [?first, ?second], ?final)"
    by (simp add: sortByVersion_def)
next
  let ?first = "\<lparr>Version = 1, Up = Some noop, Down = Some noop\<rparr> :: unit migration"
  let ?second = "\<lparr>Version = 2, Up = Some noop, Down = Some noop\<rparr> :: unit migration"
  let ?e = "OtherError ''bad connection''"
  let ?db = "\<lparr>history = Some [], next_id = 1,
               faults = [None, None, None, None, None, None, Some ?e], user_data = ()\<rparr>"
  let ?created = "\<lparr>history = Some [], next_id = 1,
               faults = [None, None, None, None, None, Some ?e], user_data = ()\<rparr>"
  let ?read = "\<lparr>history = Some [], next_id = 1,
               faults = [None, None, None, None, Some ?e], user_data = ()\<rparr>"
  let ?applied = "\<lparr>history = Some [\<lparr>row_id = 1, row_version = 1, row_running = True\<rparr>,
                                \<lparr>row_id = 2, row_version = 1, row_running = False\<rparr>],
               next_id = 3, faults = [Some ?e], user_data = ()\<rparr>"
  let ?final = "\<lparr>history = Some [\<lparr>row_id = 1, row_version = 1, row_running = True\<rparr>,
                                \<lparr>row_id = 2, row_version = 1, row_running = False\<rparr>],
               next_id = 3, faults = [], user_data = ()\<rparr>"
  have action: "DOWN \<notin> set [MYSQL]"
    by simp
  have table: "createTable (parseOptions [MYSQL]) ?db = (None, ?created)"
    by (simp add: parseOptions_def createTable_def exec_create_table_def driver_call_def)
  have version: "getVersion ?created = (0, None, ?read)"
    by (simp add: getVersion_def query_latest_def driver_call_def)
  have registry: "sortByVersion [?first, ?second] = [?first] @ ?second # []"
    by (simp add: sortByVersion_def)
  have earlier: "runUp (parseOptions [MYSQL]) 0 [?first] ?read = (1, None, ?applied)"
    by (simp add: parseOptions_def runUp_def runUp_body_def setVersion_def prepare_insert_def
        exec_insert_def driver_call_def noop_def sle_iff_sint)
  have above: "\<not> Version ?second \<le>s 0"
    by (simp add: sle_iff_sint)
  have up: "Up ?second = Some noop"
    by simp
  have fails:
    "setVersion (parseOptions [MYSQL]) (Version ?second) True ?applied = (Some ?e, ?final) \<or>
     (\<exists>s. setVersion (parseOptions [MYSQL]) (Version ?second) True ?applied = (None, s) \<and>
        noop s = (Some ?e, ?final)) \<or>
     (\<exists>s t. setVersion (parseOptions [MYSQL]) (Version ?second) True ?applied = (None, s) \<and>
        noop s = (None, t) \<and>
        setVersion (parseOptions [MYSQL]) (Version ?second) False t = (Some ?e, ?final))"
    by (simp add: parseOptions_def setVersion_def prepare_insert_def driver_call_def)
  from Run_up_stops_at_first_failure [OF action table version registry earlier above up fails]
  show "Run [?first, ?second] ?db [MYSQL] =
      ((True, 1, Some ?e), [?first, ?second], ?final)"
    by (simp add: sortByVersion_def)
qed

section \<open>The guard against an interrupted run\<close>

text \<open>
  C2. On a working driver, for every history table whose row \<open>r\<close> of greatest
  \<open>id\<close> has \<open>running = true\<close>, \<open>getVersion\<close> fails with
  \<open>errMigrationAlreadyRunning\<close>, and \<open>Run\<close> (which reads the version whenever a
  migration is registered) returns that error with \<open>didChange = false\<close> and leaves
  the database as it was: no row is written and no procedure is called, whatever the
  action.
\<close>

theorem getVersion_blocks_interrupted_run:
  assumes driver: "faults db = []"
    and table: "history db = Some rows"
    and row: "r \<in> set rows"
    and newest: "\<forall>x \<in> set rows. x \<noteq> r \<longrightarrow> row_id x < row_id r"
    and running: "row_running r"
  shows "getVersion db = (row_version r, Some errMigrationAlreadyRunning, db) \<and>
         (migrations \<noteq> [] \<longrightarrow>
            Run migrations db options =
              ((False, 0, Some errMigrationAlreadyRunning), sortByVersion migrations, db))"
proof -
  from row newest have "latest rows = Some r"
    by (rule latest_greatest)
  with table running have rec: "recorded db = (row_version r, True)"
    by (simp add: recorded_def)
  with driver table
  have get: "getVersion db = (row_version r, Some errMigrationAlreadyRunning, db)"
    by (simp add: getVersion_ok)
  from table have same: "db\<lparr>history := Some (history_rows db)\<rparr> = db"
    by (simp add: history_rows_def)
  have "createTable (parseOptions options) db = (None, db\<lparr>history := Some (history_rows db)\<rparr>)"
    using parseOptions_database_cases driver by (rule createTable_ok)
  with same have "createTable (parseOptions options) db = (None, db)"
    by simp
  with get have "migrations \<noteq> [] \<longrightarrow>
      Run migrations db options =
        ((False, 0, Some errMigrationAlreadyRunning), sortByVersion migrations, db)"
    by (simp add: Run_def Let_def)
  with get show ?thesis ..
qed

theorem getVersion_blocks_interrupted_run_witness:
  "getVersion \<lparr>history = Some [\<lparr>row_id = 1, row_version = 1, row_running = True\<rparr>],
              next_id = 2, faults = [], user_data = ()\<rparr>
     = (1, Some errMigrationAlreadyRunning,
        \<lparr>history = Some [\<lparr>row_id = 1, row_version = 1, row_running = True\<rparr>],
         next_id = 2, faults = [], user_data = ()\<rparr>) \<and>
   Run [\<lparr>Version = 1, Up = Some noop, Down = Some noop\<rparr>, \<lparr>Version = 2, Up = Some noop, Down = Some noop\<rparr>]
       \<lparr>history = Some [\<lparr>row_id = 1, row_version = 1, row_running = True\<rparr>],
        next_id = 2, faults = [], user_data = ()\<rparr> [POSTGRES, UP]
     = ((False, 0, Some errMigrationAlreadyRunning),
        [\<lparr>Version = 1, Up = Some noop, Down = Some noop\<rparr>, \<lparr>Version = 2, Up = Some noop, Down = Some noop\<rparr>],
        \<lparr>history = Some [\<lparr>row_id = 1, row_version = 1, row_running = True\<rparr>],
         next_id = 2, faults = [], user_data = ()\<rparr>)"
  using getVersion_blocks_interrupted_run
    [of "\<lparr>history = Some [\<lparr>row_id = 1, row_version = 1, row_running = True\<rparr>],
          next_id = 2, faults = [], user_data = ()\<rparr>"
        "[\<lparr>row_id = 1, row_version = 1, row_running = True\<rparr>]"
        "\<lparr>row_id = 1, row_version = 1, row_running = True\<rparr>"
        "[\<lparr>Version = 1, Up = Some noop, Down = Some noop\<rparr>, \<lparr>Version = 2, Up = Some noop, Down = Some noop\<rparr>]"
        "[POSTGRES, UP]"]
  by (simp add: sortByVersion_def)

section \<open>UP at the boundary\<close>

lemma set_sortByVersion [simp]: "set (sortByVersion ms) = set ms"
  by (simp add: sortByVersion_def)

lemma sortByVersion_single [simp]: "sortByVersion [m] = [m]"
  by (simp add: sortByVersion_def)

lemma runUp_nothing_pending:
  "\<forall>m \<in> set ms. \<not> pending old m \<Longrightarrow> runUp c old ms db = (old, None, db)"
proof -
  assume "\<forall>m \<in> set ms. \<not> pending old m"
  then have "filter (pending old) ms = []"
    by (simp add: filter_empty_conv)
  then have "runUp_loop c old (filter (pending old) ms) old db = (old, None, db)"
    by simp
  then show ?thesis
    by (simp add: runUp_def runUp_loop_filter)
qed

lemma runUp_body_noop:
  "Database c = POSTGRES \<or> Database c = MYSQL \<Longrightarrow> faults db = [] \<Longrightarrow>
   history db = Some rows \<Longrightarrow>
   runUp_body c v noop db =
     (None, db\<lparr>history := Some (rows @ transitions (next_id db) [v]),
               next_id := next_id db + 2\<rparr>)"
  by (simp add: runUp_body_def setVersion_ok noop_def)

lemma recorded_transition:
  assumes "fresh_ids db"
  shows "recorded (db\<lparr>history := Some (history_rows db @ transitions (next_id db) [v]),
                      next_id := next_id db + 2\<rparr>) = (v, False)"
proof -
  let ?r = "\<lparr>row_id = next_id db + 1, row_version = v, row_running = False\<rparr>"
  let ?rows = "history_rows db @ [\<lparr>row_id = next_id db, row_version = v, row_running = True\<rparr>]"
  from assms have "\<forall>x \<in> set ?rows. row_id x < row_id ?r"
    by (auto simp: fresh_ids_def list_all_iff)
  then have "latest (?rows @ [?r]) = Some ?r"
    by (rule latest_snoc)
  then show ?thesis
    by (simp add: recorded_def)
qed

lemma fresh_ids_transition:
  "fresh_ids db \<Longrightarrow>
   fresh_ids (db\<lparr>history := Some (history_rows db @ transitions (next_id db) [v]),
                 next_id := next_id db + 2\<rparr>)"
  by (auto simp: fresh_ids_def list_all_iff history_rows_def)

text \<open>
  C3. On a working driver and with action \<open>UP\<close>: from current version 0, \<open>Run\<close>
  with the single registered migration of version 1, whose procedures do nothing, returns
  \<open>(true, 1, nil)\<close> and records the transition; \<open>Run\<close> again, on the database
  the first run left, returns \<open>(false, 1, nil)\<close> and writes nothing. In general, when
  the database is at version \<open>v\<close> and no registered migration is pending, \<open>Run\<close>
  returns \<open>(false, v, nil)\<close>.
\<close>

theorem Run_up_idempotent_at_boundary:
  assumes driver: "faults db = []" and action: "DOWN \<notin> set options"
  shows
    "(recorded db = (0, False) \<and> fresh_ids db \<longrightarrow>
        Run [\<lparr>Version = 1, Up = Some noop, Down = Some noop\<rparr>] db options =
          ((True, 1, None), [\<lparr>Version = 1, Up = Some noop, Down = Some noop\<rparr>],
           db\<lparr>history := Some (history_rows db @ transitions (next_id db) [1]),
              next_id := next_id db + 2\<rparr>) \<and>
        Run [\<lparr>Version = 1, Up = Some noop, Down = Some noop\<rparr>]
            (db\<lparr>history := Some (history_rows db @ transitions (next_id db) [1]),
               next_id := next_id db + 2\<rparr>) options =
          ((False, 1, None), [\<lparr>Version = 1, Up = Some noop, Down = Some noop\<rparr>],
           db\<lparr>history := Some (history_rows db @ transitions (next_id db) [1]),
              next_id := next_id db + 2\<rparr>)) \<and>
     (migrations \<noteq> [] \<and> recorded db = (v, False) \<and>
      (\<forall>m \<in> set migrations. \<not> pending v m) \<longrightarrow>
        Run migrations db options =
          ((False, v, None), sortByVersion migrations,
           db\<lparr>history := Some (history_rows db)\<rparr>))"
proof (intro conjI impI)
  let ?c = "parseOptions options"
  have dialect: "Database ?c = POSTGRES \<or> Database ?c = MYSQL"
    by (rule parseOptions_database_cases)
  {
    assume "migrations \<noteq> [] \<and> recorded db = (v, False) \<and>
      (\<forall>m \<in> set migrations. \<not> pending v m)"
    then have ne: "migrations \<noteq> []" and rec: "recorded db = (v, False)"
      and none: "\<forall>m \<in> set (sortByVersion migrations). \<not> pending v m"
      by simp_all
    from none have "runUp ?c v (sortByVersion migrations) (db\<lparr>history := Some (history_rows db)\<rparr>)
        = (v, None, db\<lparr>history := Some (history_rows db)\<rparr>)"
      by (rule runUp_nothing_pending)
    with action have "runMigrations ?c v (sortByVersion migrations)
        (db\<lparr>history := Some (history_rows db)\<rparr>) = (v, None, db\<lparr>history := Some (history_rows db)\<rparr>)"
      by (simp add: runMigrations_up)
    from Run_ok [OF ne driver rec this]
    show "Run migrations db options =
          ((False, v, None), sortByVersion migrations, db\<lparr>history := Some (history_rows db)\<rparr>)"
      by simp
  }
  let ?m = "\<lparr>Version = 1, Up = Some noop, Down = Some noop\<rparr> :: 'a migration"
  let ?after = "db\<lparr>history := Some (history_rows db @ transitions (next_id db) [1]),
              next_id := next_id db + 2\<rparr>"
  assume start: "recorded db = (0, False) \<and> fresh_ids db"
  have "runUp_body ?c 1 noop (db\<lparr>history := Some (history_rows db)\<rparr>) = (None, ?after)"
    using dialect driver by (simp add: runUp_body_noop)
  then have "runUp ?c 0 [?m] (db\<lparr>history := Some (history_rows db)\<rparr>) = (1, None, ?after)"
    by (simp add: runUp_def sle_iff_sint)
  with action have "runMigrations ?c 0 (sortByVersion [?m])
      (db\<lparr>history := Some (history_rows db)\<rparr>) = (1, None, ?after)"
    by (simp add: runMigrations_up)
  from Run_ok [OF _ driver _ this] start
  show "Run [?m] db options = ((True, 1, None), [?m], ?after)"
    by simp
  have same: "?after\<lparr>history := Some (history_rows ?after)\<rparr> = ?after"
    by (simp add: history_rows_def)
  from start have "fresh_ids db" ..
  then have rec: "recorded ?after = (1, False)"
    by (rule recorded_transition)
  have "runUp ?c 1 (sortByVersion [?m]) ?after = (1, None, ?after)"
    by (rule runUp_nothing_pending) (simp add: pending_def)
  with action have "runMigrations ?c 1 (sortByVersion [?m]) ?after = (1, None, ?after)"
    by (simp add: runMigrations_up)
  with same have "runMigrations ?c 1 (sortByVersion [?m])
      (?after\<lparr>history := Some (history_rows ?after)\<rparr>) = (1, None, ?after)"
    by simp
  from Run_ok [OF _ _ rec this] driver
  show "Run [?m] ?after options = ((False, 1, None), [?m], ?after)"
    by simp
qed

theorem Run_up_idempotent_at_boundary_witness:
  "Run [\<lparr>Version = 1, Up = Some noop, Down = Some noop\<rparr>]
       \<lparr>history = None, next_id = 1, faults = [], user_data = ()\<rparr> [POSTGRES, UP]
     = ((True, 1, None), [\<lparr>Version = 1, Up = Some noop, Down = Some noop\<rparr>],
        \<lparr>history = Some [\<lparr>row_id = 1, row_version = 1, row_running = True\<rparr>,
                         \<lparr>row_id = 2, row_version = 1, row_running = False\<rparr>],
         next_id = 3, faults = [], user_data = ()\<rparr>) \<and>
   Run [\<lparr>Version = 1, Up = Some noop, Down = Some noop\<rparr>]
       \<lparr>history = Some [\<lparr>row_id = 1, row_version = 1, row_running = True\<rparr>,
                        \<lparr>row_id = 2, row_version = 1, row_running = False\<rparr>],
         next_id = 3, faults = [], user_data = ()\<rparr> [POSTGRES, UP]
     = ((False, 1, None), [\<lparr>Version = 1, Up = Some noop, Down = Some noop\<rparr>],
        \<lparr>history = Some [\<lparr>row_id = 1, row_version = 1, row_running = True\<rparr>,
                         \<lparr>row_id = 2, row_version = 1, row_running = False\<rparr>],
         next_id = 3, faults = [], user_data = ()\<rparr>) \<and>
   Run [\<lparr>Version = 1, Up = None, Down = None\<rparr>, \<lparr>Version = 2, Up = None, Down = None\<rparr>]
       \<lparr>history = Some [\<lparr>row_id = 7, row_version = 2, row_running = False\<rparr>],
         next_id = 8, faults = [], user_data = ()\<rparr> []
     = ((False, 2, None),
        [\<lparr>Version = 1, Up = None, Down = None\<rparr>, \<lparr>Version = 2, Up = None, Down = None\<rparr>],
        \<lparr>history = Some [\<lparr>row_id = 7, row_version = 2, row_running = False\<rparr>],
         next_id = 8, faults = [], user_data = ()\<rparr>)"
  using Run_up_idempotent_at_boundary
    [of "\<lparr>history = None, next_id = 1, faults = [], user_data = ()\<rparr>" "[POSTGRES, UP]"
        "[]" 0]
    Run_up_idempotent_at_boundary
    [of "\<lparr>history = Some [\<lparr>row_id = 7, row_version = 2, row_running = False\<rparr>],
         next_id = 8, faults = [], user_data = ()\<rparr>" "[]"
        "[\<lparr>Version = 1, Up = None, Down = None\<rparr>, \<lparr>Version = 2, Up = None, Down = None\<rparr>]" 2]
  by (simp add: recorded_def fresh_ids_def history_rows_def pending_def sortByVersion_def)

section \<open>DOWN\<close>

lemma scan_back_none:
  "\<forall>m \<in> set ms. \<not> Version m \<le>s old \<Longrightarrow> scan_back old (rev ms) = None"
  by (simp add: scan_back_rev filter_empty_conv split: list.splits)




lemma runDown_not_found:
  "old \<noteq> 0 \<Longrightarrow> \<forall>m \<in> set ms. \<not> Version m \<le>s old \<Longrightarrow>
   runDown c old ms db = (old, Some errPreviousMigrationNotFound, db)"
  by (simp add: runDown_def scan_back_none)




text \<open>
  C6, as stated, fails: the registry holds version 1 only, the history table says the
  database is at version 2, and \<open>Run\<close> with \<open>DOWN\<close> does not fail. It takes the
  migration of version 1, the greatest one not above 2, runs its down procedure and
  returns \<open>(true, 0, nil)\<close>.
\<close>

theorem Run_down_missing_version_counterexample:
  "2 \<notin> set (map Version [\<lparr>Version = 1, Up = Some noop, Down = Some noop\<rparr> :: unit migration]) \<and>
   Run [\<lparr>Version = 1, Up = Some noop, Down = Some noop\<rparr>]
       \<lparr>history = Some [\<lparr>row_id = 1, row_version = 1, row_running = True\<rparr>,
                        \<lparr>row_id = 2, row_version = 1, row_running = False\<rparr>,
                        \<lparr>row_id = 3, row_version = 2, row_running = True\<rparr>,
                        \<lparr>row_id = 4, row_version = 2, row_running = False\<rparr>],
        next_id = 5, faults = [], user_data = ()\<rparr> [POSTGRES, DOWN]
     = ((True, 0, None), [\<lparr>Version = 1, Up = Some noop, Down = Some noop\<rparr>],
        \<lparr>history = Some [\<lparr>row_id = 1, row_version = 1, row_running = True\<rparr>,
                         \<lparr>row_id = 2, row_version = 1, row_running = False\<rparr>,
                         \<lparr>row_id = 3, row_version = 2, row_running = True\<rparr>,
                         \<lparr>row_id = 4, row_version = 2, row_running = False\<rparr>,
                         \<lparr>row_id = 5, row_version = 0, row_running = True\<rparr>,
                         \<lparr>row_id = 6, row_version = 0, row_running = False\<rparr>],
         next_id = 7, faults = [], user_data = ()\<rparr>)"
  by (simp add: Run_def sortByVersion_def parseOptions_def createTable_def
      exec_create_table_def driver_call_def getVersion_def query_latest_def
      runMigrations_def runDown_def setVersion_def prepare_insert_def exec_insert_def
      call_handler_def noop_def sle_iff_sint)

text \<open>
  C6, amended. On a working driver, with a \<open>DOWN\<close> token and a non-empty registry:
  at a current version \<open>v\<close> other than 0, if no registered migration has a version
  less than or equal to \<open>v\<close>, \<open>Run\<close> fails with \<open>errPreviousMigrationNotFound\<close>,
  returns \<open>newVersion = v\<close> and \<open>didChange = false\<close>, and writes nothing.
\<close>

theorem Run_down_previous_not_found:
  assumes driver: "faults db = []" and action: "DOWN \<in> set options"
    and registry: "migrations \<noteq> []"
    and rec: "recorded db = (v, False)" and nonzero: "v \<noteq> 0"
    and none: "\<forall>m \<in> set migrations. \<not> Version m \<le>s v"
  shows "Run migrations db options =
           ((False, v, Some errPreviousMigrationNotFound), sortByVersion migrations,
            db\<lparr>history := Some (history_rows db)\<rparr>)"
proof -
  from none have "\<forall>m \<in> set (sortByVersion migrations). \<not> Version m \<le>s v"
    by simp
  with nonzero have "runDown (parseOptions options) v (sortByVersion migrations)
      (db\<lparr>history := Some (history_rows db)\<rparr>)
    = (v, Some errPreviousMigrationNotFound, db\<lparr>history := Some (history_rows db)\<rparr>)"
    by (rule runDown_not_found)
  with action have "runMigrations (parseOptions options) v (sortByVersion migrations)
      (db\<lparr>history := Some (history_rows db)\<rparr>)
    = (v, Some errPreviousMigrationNotFound, db\<lparr>history := Some (history_rows db)\<rparr>)"
    by (simp add: runMigrations_down)
  from Run_ok [OF registry driver rec this] show ?thesis
    by simp
qed

theorem Run_down_previous_not_found_witness:
  "Run [\<lparr>Version = 2, Up = Some noop, Down = Some noop\<rparr>]
       \<lparr>history = Some [\<lparr>row_id = 1, row_version = 1, row_running = True\<rparr>,
                        \<lparr>row_id = 2, row_version = 1, row_running = False\<rparr>],
        next_id = 3, faults = [], user_data = ()\<rparr> [POSTGRES, DOWN]
     = ((False, 1, Some errPreviousMigrationNotFound),
        [\<lparr>Version = 2, Up = Some noop, Down = Some noop\<rparr>],
        \<lparr>history = Some [\<lparr>row_id = 1, row_version = 1, row_running = True\<rparr>,
                         \<lparr>row_id = 2, row_version = 1, row_running = False\<rparr>],
         next_id = 3, faults = [], user_data = ()\<rparr>)"
  using Run_down_previous_not_found
    [of "\<lparr>history = Some [\<lparr>row_id = 1, row_version = 1, row_running = True\<rparr>,
                          \<lparr>row_id = 2, row_version = 1, row_running = False\<rparr>],
          next_id = 3, faults = [], user_data = ()\<rparr>" "[POSTGRES, DOWN]"
        "[\<lparr>Version = 2, Up = Some noop, Down = Some noop\<rparr>]" 1]
  by (simp add: recorded_def history_rows_def sle_iff_sint)

section \<open>The dispatch on the action\<close>


section \<open>UP: which migrations are applied\<close>






end
